theory Spec2Isabelle
  imports Complex_Main "HOL-Library.Signed_Division"
begin

section \<open>JavaScript numbers and strings\<close>

text \<open>
  A JavaScript Number is a double. The countdown code only subtracts two
  millisecond time values, divides by non-zero constants, takes remainders by
  non-zero constants and rounds down. The model computes with exact rationals
  and one extra value \<open>NaN\<close> (what \<^verbatim>\<open>Date.parse\<close> yields for a string it cannot
  read). Exact rationals agree with the doubles while the millisecond values
  stay within the range of exactly represented integers, which every pair of
  valid time values of less than a hundred thousand years apart does.
\<close>

datatype jsnum = NaN | Fin rat

fun js_sub :: "jsnum \<Rightarrow> jsnum \<Rightarrow> jsnum" where
  "js_sub (Fin a) (Fin b) = Fin (a - b)"
| "js_sub _ _ = NaN"

text \<open>
  \<^verbatim>\<open>x / y\<close>. The program divides by non-zero constants only; the quotient by
  zero (an infinity or NaN in JavaScript) is mapped to \<open>NaN\<close>.
\<close>

fun js_div :: "jsnum \<Rightarrow> jsnum \<Rightarrow> jsnum" where
  "js_div (Fin a) (Fin b) = (if b = 0 then NaN else Fin (a / b))"
| "js_div _ _ = NaN"

text \<open>
  \<^verbatim>\<open>x % y\<close>: the remainder \<open>x - y * q\<close> where \<open>q\<close> is the quotient \<open>x / y\<close>
  rounded toward zero, so that the result has the sign of the dividend.
\<close>

definition trunc :: "rat \<Rightarrow> int" where
  "trunc q = (if q < 0 then \<lceil>q\<rceil> else \<lfloor>q\<rfloor>)"

fun js_rem :: "jsnum \<Rightarrow> jsnum \<Rightarrow> jsnum" where
  "js_rem (Fin a) (Fin b) = (if b = 0 then NaN else Fin (a - b * of_int (trunc (a / b))))"
| "js_rem _ _ = NaN"

fun Math_floor :: "jsnum \<Rightarrow> jsnum" where
  "Math_floor (Fin a) = Fin (of_int \<lfloor>a\<rfloor>)"
| "Math_floor NaN = NaN"

text \<open>\<^verbatim>\<open>x <= y\<close> and \<^verbatim>\<open>x < y\<close>: false as soon as one side is NaN.\<close>

fun js_le :: "jsnum \<Rightarrow> jsnum \<Rightarrow> bool" where
  "js_le (Fin a) (Fin b) = (a \<le> b)"
| "js_le _ _ = False"

fun js_lt :: "jsnum \<Rightarrow> jsnum \<Rightarrow> bool" where
  "js_lt (Fin a) (Fin b) = (a < b)"
| "js_lt _ _ = False"

abbreviation num :: "int \<Rightarrow> jsnum" where
  "num n \<equiv> Fin (of_int n)"

text \<open>
  Number-to-string conversion. The program converts only results of
  \<^verbatim>\<open>Math.floor\<close> and integers read from a date, so the decimal form of the
  integer part is all that is needed.
\<close>

definition digit_char :: "nat \<Rightarrow> char" where
  "digit_char d = ''0123456789'' ! d"

fun show_nat :: "nat \<Rightarrow> string" where
  "show_nat n = (if n < 10 then [digit_char n] else show_nat (n div 10) @ [digit_char (n mod 10)])"

declare show_nat.simps [simp del]

definition show_int :: "int \<Rightarrow> string" where
  "show_int k = (if k < 0 then CHR ''-'' # show_nat (nat (- k)) else show_nat (nat k))"

fun ToString :: "jsnum \<Rightarrow> string" where
  "ToString NaN = ''NaN''"
| "ToString (Fin q) = show_int \<lfloor>q\<rfloor>"

text \<open>\<^verbatim>\<open>s.slice(-2)\<close>: the last two characters, the whole string when it is shorter.\<close>

definition slice_last2 :: "string \<Rightarrow> string" where
  "slice_last2 s = drop (length s - 2) s"

text \<open>\<^verbatim>\<open>s.padStart(2, "0")\<close>\<close>

definition padStart2 :: "string \<Rightarrow> string" where
  "padStart2 s = replicate (2 - length s) CHR ''0'' @ s"

text \<open>
  \<^verbatim>\<open>a > b\<close> on strings: lexicographic comparison of the character codes, a
  proper prefix being the smaller string.
\<close>

fun str_gt :: "string \<Rightarrow> string \<Rightarrow> bool" where
  "str_gt [] _ = False"
| "str_gt (a # as) [] = True"
| "str_gt (a # as) (b # bs) =
     (if (of_char a :: nat) > of_char b then True
      else if (of_char a :: nat) < of_char b then False
      else str_gt as bs)"

section \<open>The host: clock, page and interval table\<close>

text \<open>
  The scripts run against the browser: the wall clock, the text and the
  \<^verbatim>\<open>style.display\<close> of page elements, and the table of armed intervals. Every
  write to the page and every call to \<^verbatim>\<open>setInterval\<close> and \<^verbatim>\<open>clearInterval\<close> is
  also recorded, in the order made. An interval handle variable that has not
  been assigned yet holds \<^verbatim>\<open>undefined\<close>, here \<open>None\<close>.
\<close>

datatype host_call =
    SetText string string
  | SetDisplay string string
  | SetInterval nat
  | ClearInterval "nat option"

record world =
  clock :: int
  text_of :: "string \<Rightarrow> string"
  display_of :: "string \<Rightarrow> string"
  intervals :: "nat list"
  next_handle :: nat
  calls :: "host_call list"

definition setInterval :: "world \<Rightarrow> nat \<times> world" where
  "setInterval w =
     (let h = next_handle w
      in (h, w\<lparr>intervals := h # intervals w, next_handle := Suc h,
                calls := calls w @ [SetInterval h]\<rparr>))"

text \<open>\<^verbatim>\<open>clearInterval(undefined)\<close> and clearing an unknown handle do nothing.\<close>

definition clearInterval :: "nat option \<Rightarrow> world \<Rightarrow> world" where
  "clearInterval ho w =
     (let w' = w\<lparr>calls := calls w @ [ClearInterval ho]\<rparr>
      in case ho of None \<Rightarrow> w' | Some h \<Rightarrow> w'\<lparr>intervals := removeAll h (intervals w')\<rparr>)"

definition set_text :: "string \<Rightarrow> string \<Rightarrow> world \<Rightarrow> world" where
  "set_text el s w = w\<lparr>text_of := (text_of w)(el := s), calls := calls w @ [SetText el s]\<rparr>"

definition set_display :: "string \<Rightarrow> string \<Rightarrow> world \<Rightarrow> world" where
  "set_display el s w =
     w\<lparr>display_of := (display_of w)(el := s), calls := calls w @ [SetDisplay el s]\<rparr>"

text \<open>
  The event loop. \<open>deliver cb h nows w\<close> offers the callback \<open>cb\<close> of
  interval \<open>h\<close> one run at each of the clock readings \<open>nows\<close>, in order; the
  callback runs only while \<open>h\<close> is still armed. The result is the final world
  and the readings at which the callback did run.
\<close>

fun deliver :: "(world \<Rightarrow> world) \<Rightarrow> nat \<Rightarrow> int list \<Rightarrow> world \<Rightarrow> world \<times> int list" where
  "deliver cb h [] w = (w, [])"
| "deliver cb h (n # ns) w =
     (if h \<in> set (intervals w)
      then (let (w', ds) = deliver cb h ns (cb (w\<lparr>clock := n\<rparr>)) in (w', n # ds))
      else deliver cb h ns (w\<lparr>clock := n\<rparr>))"

section \<open>The countdown of golf.js\<close>

record remaining =
  total :: jsnum
  days :: jsnum
  hours :: jsnum
  minutes :: jsnum
  seconds :: jsnum

text \<open>
  \<^verbatim>\<open>Date.parse(new Date())\<close> turns the current date into its string form and
  parses it back; the string form has whole seconds, so the reading is the clock
  rounded down to a multiple of 1000 ms. The call reads the clock and changes
  nothing.
\<close>

definition Date_parse_new_Date :: "world \<Rightarrow> jsnum \<times> world" where
  "Date_parse_new_Date w = (num (clock w div 1000 * 1000), w)"

text \<open>
  \<open>time_remaining\<close> takes the value of \<^verbatim>\<open>Date.parse(endtime)\<close>: a time value in
  milliseconds, or \<open>NaN\<close> when the platform cannot read the string.
\<close>

definition time_remaining :: "jsnum \<Rightarrow> world \<Rightarrow> remaining \<times> world" where
  "time_remaining endtime w =
     (let (now, w1) = Date_parse_new_Date w;
          t = js_sub endtime now;
          seconds = Math_floor (js_rem (js_div t (num 1000)) (num 60));
          minutes = Math_floor (js_rem (js_div (js_div t (num 1000)) (num 60)) (num 60));
          hours = Math_floor (js_rem (js_div t (num (1000 * 60 * 60))) (num 24));
          days = Math_floor (js_div t (num (1000 * 60 * 60 * 24)))
      in (\<lparr>total = t, days = days, hours = hours, minutes = minutes, seconds = seconds\<rparr>, w1))"

text \<open>
  \<open>update_clock\<close> closes over \<open>endtime\<close> and over the variable \<open>timeinterval\<close>,
  whose value at the time of the call is the second argument.
\<close>

definition update_clock :: "jsnum \<Rightarrow> nat option \<Rightarrow> world \<Rightarrow> world" where
  "update_clock endtime timeinterval w =
     (let (t, w1) = time_remaining endtime w;
          w2 = set_text ''.days'' (ToString (days t)) w1;
          w3 = set_text ''.hours'' (slice_last2 (CHR ''0'' # ToString (hours t))) w2;
          w4 = set_text ''.minutes'' (slice_last2 (CHR ''0'' # ToString (minutes t))) w3;
          w5 = set_text ''.seconds'' (slice_last2 (CHR ''0'' # ToString (seconds t))) w4
      in if js_le (total t) (num 0) then clearInterval timeinterval w5 else w5)"

text \<open>
  \<open>run_clock\<close>: the first update runs while \<open>timeinterval\<close> is still
  undefined, then the interval is armed and its handle stored. The result is
  that handle and the world. The lookups of the clock element and of its four
  spans are taken to succeed; the spans are named by their class.
\<close>

definition run_clock :: "jsnum \<Rightarrow> world \<Rightarrow> nat \<times> world" where
  "run_clock endtime w = setInterval (update_clock endtime None w)"

text \<open>The ticks of the interval armed by \<open>run_clock\<close>, at the readings \<open>nows\<close>.\<close>

definition run_clock_ticks :: "jsnum \<Rightarrow> int list \<Rightarrow> world \<Rightarrow> world \<times> int list" where
  "run_clock_ticks endtime nows w =
     (let (h, w1) = run_clock endtime w
      in deliver (update_clock endtime (Some h)) h nows w1)"

text \<open>
  The script's own deadline, \<^verbatim>\<open>'august 31 2025 11:59:00 GMT-0400'\<close>, is
  2025-08-31T15:59:00Z, and the script starts the clock on it.
\<close>

definition deadline :: jsnum where
  "deadline = num 1756655940000"

definition golf_main :: "int list \<Rightarrow> world \<Rightarrow> world \<times> int list" where
  "golf_main nows w = run_clock_ticks deadline nows w"

section \<open>The birthday countdown\<close>

text \<open>
  The second countdown is an anonymous function run once at load. It reads
  the current date, builds the deadline from it and arms an interval whose
  callback publishes the remaining time.
\<close>

subsection \<open>Dates\<close>

text \<open>
  The \<^verbatim>\<open>Date\<close> that \<^verbatim>\<open>new Date()\<close> returns, by what its getters return in local
  time: \<^verbatim>\<open>getFullYear()\<close>, \<^verbatim>\<open>getMonth()\<close> (0 for January), \<^verbatim>\<open>getDate()\<close>, and the
  milliseconds since local midnight. Time values are counted on the local time
  line (a fixed offset from UTC, which cancels in every difference the script
  takes).
\<close>

record js_date =
  getFullYear :: int
  getMonth :: int
  getDate :: int
  ms_of_day :: int

text \<open>
  Days from 1970-01-01 to the given day of the proleptic Gregorian calendar,
  the year counted from March so that the leap day comes last.
\<close>

definition leap_days :: "int \<Rightarrow> int" where
  "leap_days y = y div 4 - y div 100 + y div 400"

definition days_from_civil :: "int \<Rightarrow> int \<Rightarrow> int \<Rightarrow> int" where
  "days_from_civil y m d =
     (let y' = (if m \<le> 2 then y - 1 else y);
          mp = (m + 9) mod 12;
          doy = (153 * mp + 2) div 5 + d - 1
      in 365 * y' + leap_days y' + doy - 719468)"

definition ms_per_day :: int where
  "ms_per_day = 86400000"

definition getTime :: "js_date \<Rightarrow> int" where
  "getTime t = days_from_civil (getFullYear t) (getMonth t + 1) (getDate t) * ms_per_day + ms_of_day t"

text \<open>
  What the getters can return, for a year of four digits whose next year has
  four digits too. The day is bounded by 31 whatever the month.
\<close>

definition valid_date :: "js_date \<Rightarrow> bool" where
  "valid_date t \<longleftrightarrow>
     1000 \<le> getFullYear t \<and> getFullYear t < 9999 \<and>
     0 \<le> getMonth t \<and> getMonth t \<le> 11 \<and>
     1 \<le> getDate t \<and> getDate t \<le> 31 \<and>
     0 \<le> ms_of_day t \<and> ms_of_day t < ms_per_day"

text \<open>
  \<^verbatim>\<open>new Date(s).getTime()\<close> for a string of the form \<^verbatim>\<open>MM/DD/YYYY\<close>, the only
  form the script builds: local midnight of that day. Any other string is
  outside the model and is given \<open>NaN\<close>.
\<close>

definition digit_val :: "char \<Rightarrow> nat option" where
  "digit_val c = (let n = (of_char c :: nat) in if 48 \<le> n \<and> n \<le> 57 then Some (n - 48) else None)"

fun parse_digits :: "nat \<Rightarrow> string \<Rightarrow> nat option" where
  "parse_digits acc [] = Some acc"
| "parse_digits acc (c # cs) =
     (case digit_val c of None \<Rightarrow> None | Some v \<Rightarrow> parse_digits (10 * acc + v) cs)"

definition parse_nat :: "string \<Rightarrow> nat option" where
  "parse_nat s = (if s = [] then None else parse_digits 0 s)"

definition Date_of_mdy :: "string \<Rightarrow> jsnum" where
  "Date_of_mdy s =
     (case s of
        m1 # m2 # s1 # d1 # d2 # s2 # ys \<Rightarrow>
          (if s1 = CHR ''/'' \<and> s2 = CHR ''/'' then
             (case (parse_nat [m1, m2], parse_nat [d1, d2], parse_nat ys) of
                (Some m, Some d, Some y) \<Rightarrow>
                  (if 1 \<le> m \<and> m \<le> 12 \<and> 1 \<le> d \<and> d \<le> 31
                   then num (days_from_civil (int y) (int m) (int d) * ms_per_day)
                   else NaN)
              | _ \<Rightarrow> NaN)
           else NaN)
      | _ \<Rightarrow> NaN)"

subsection \<open>The deadline\<close>

definition second :: int where "second = 1000"
definition minute :: int where "minute = second * 60"
definition hour :: int where "hour = minute * 60"
definition day :: int where "day = hour * 24"

text \<open>
  The string \<open>birthday\<close> after the year adjustment: \<^verbatim>\<open>09/30/\<close> of this year, or
  of next year when the string \<^verbatim>\<open>mm/dd/yyyy\<close> of today is greater, as a string,
  than that of this year's day.
\<close>

definition birthday :: "js_date \<Rightarrow> string" where
  "birthday today =
     (let dd = padStart2 (ToString (num (getDate today)));
          mm = padStart2 (ToString (num (getMonth today + 1)));
          yyyy = getFullYear today;
          nextYear = yyyy + 1;
          dayMonth = ''09/30/'';
          birthday = dayMonth @ ToString (num yyyy);
          today' = mm @ ''/'' @ dd @ ''/'' @ ToString (num yyyy)
      in if str_gt today' birthday then dayMonth @ ToString (num nextYear) else birthday)"

definition countDown :: "js_date \<Rightarrow> jsnum" where
  "countDown today = Date_of_mdy (birthday today)"

subsection \<open>The interval callback\<close>

text \<open>
  The callback closes over \<open>countDown\<close> and over its own handle \<open>x\<close>; it reads
  the clock with \<^verbatim>\<open>new Date().getTime()\<close>, in milliseconds.
\<close>

definition countdown_tick :: "jsnum \<Rightarrow> nat option \<Rightarrow> world \<Rightarrow> world" where
  "countdown_tick cd x w =
     (let now = num (clock w);
          distance = js_sub cd now;
          w1 = set_text ''days'' (ToString (Math_floor (js_div distance (num day)))) w;
          w2 = set_text ''hours''
                 (ToString (Math_floor (js_div (js_rem distance (num day)) (num hour)))) w1;
          w3 = set_text ''minutes''
                 (ToString (Math_floor (js_div (js_rem distance (num hour)) (num minute)))) w2;
          w4 = set_text ''seconds''
                 (ToString (Math_floor (js_div (js_rem distance (num minute)) (num second)))) w3
      in if js_lt distance (num 0)
         then clearInterval x
                (set_display ''content'' ''block''
                  (set_display ''countdown'' ''none''
                    (set_text ''headline'' (''It'' @ [CHR 0x27] @ ''s my birthday!'') w4)))
         else w4)"

text \<open>
  The anonymous function: the deadline from today's date, then the interval.
  By the time the host runs the callback, \<open>x\<close> holds the handle.
\<close>

definition countdown :: "js_date \<Rightarrow> world \<Rightarrow> jsnum \<times> nat \<times> world" where
  "countdown today w = (let cd = countDown today; (x, w1) = setInterval w in (cd, x, w1))"

definition countdown_ticks :: "js_date \<Rightarrow> int list \<Rightarrow> world \<Rightarrow> world \<times> int list" where
  "countdown_ticks today nows w =
     (let (cd, x, w1) = countdown today w
      in deliver (countdown_tick cd (Some x)) x nows w1)"

section \<open>Notions of the specification\<close>

text \<open>
  The decomposition of a total of milliseconds as the specification words it.
  Its \<open>mod\<close> is the remainder that keeps the sign of the dividend, as the
  specification notes for expired deadlines (the sign carries into the
  remainder) and as \<^verbatim>\<open>%\<close> does in the source; on totals that are not negative
  it is the usual \<open>mod\<close>.
\<close>

definition spec_days :: "int \<Rightarrow> int" where
  "spec_days T = \<lfloor>(of_int T :: rat) / 86400000\<rfloor>"

definition spec_hours :: "int \<Rightarrow> int" where
  "spec_hours T = \<lfloor>(of_int (T smod 86400000) :: rat) / 3600000\<rfloor>"

definition spec_minutes :: "int \<Rightarrow> int" where
  "spec_minutes T = \<lfloor>(of_int (T smod 3600000) :: rat) / 60000\<rfloor>"

definition spec_seconds :: "int \<Rightarrow> int" where
  "spec_seconds T = \<lfloor>(of_int (T smod 60000) :: rat) / 1000\<rfloor>"

text \<open>The total rebuilt from the four fields.\<close>

definition recombine :: "int \<Rightarrow> int \<Rightarrow> int \<Rightarrow> int \<Rightarrow> int" where
  "recombine d h m s = d * 86400000 + h * 3600000 + m * 60000 + s * 1000"

text \<open>A number below 100 padded with zeros to two digits.\<close>

definition two_digits :: "nat \<Rightarrow> string" where
  "two_digits n = [digit_char (n div 10), digit_char (n mod 10)]"

text \<open>
  The recorded calls other than the writes of the four display slots: what
  is left shows the life of the interval and the expiry effects.
\<close>

fun slot_write :: "host_call \<Rightarrow> bool" where
  "slot_write (SetText el s) =
     (el = ''.days'' \<or> el = ''.hours'' \<or> el = ''.minutes'' \<or> el = ''.seconds'' \<or>
      el = ''days'' \<or> el = ''hours'' \<or> el = ''minutes'' \<or> el = ''seconds'')"
| "slot_write _ = False"

definition lifecycle :: "world \<Rightarrow> host_call list" where
  "lifecycle w = filter (\<lambda>c. \<not> slot_write c) (calls w)"

text \<open>The readings of a run up to and including the first that satisfies \<open>P\<close>.\<close>

fun upto_first :: "(int \<Rightarrow> bool) \<Rightarrow> int list \<Rightarrow> int list" where
  "upto_first P [] = []"
| "upto_first P (n # ns) = (if P n then [n] else n # upto_first P ns)"

text \<open>The calls the birthday countdown makes when it expires, for handle \<open>x\<close>.\<close>

definition expiry_calls :: "nat \<Rightarrow> host_call list" where
  "expiry_calls x =
     [SetText ''headline'' (''It'' @ [CHR 0x27] @ ''s my birthday!''),
      SetDisplay ''countdown'' ''none'', SetDisplay ''content'' ''block'',
      ClearInterval (Some x)]"

text \<open>A page at load: nothing written, no interval armed.\<close>

definition page :: "int \<Rightarrow> world" where
  "page now = \<lparr>clock = now, text_of = (\<lambda>_. []), display_of = (\<lambda>_. []),
                intervals = [], next_handle = 0, calls = []\<rparr>"

text \<open>
  The tests that end the two countdowns, for a tick that reads \<open>n\<close> on the
  clock: \<^verbatim>\<open>t.total <= 0\<close> in \<open>update_clock\<close>, \<^verbatim>\<open>distance < 0\<close> in the callback of
  the birthday countdown.
\<close>

definition golf_expired :: "jsnum \<Rightarrow> int \<Rightarrow> bool" where
  "golf_expired e n = js_le (total (fst (time_remaining e (page n)))) (num 0)"

definition birthday_expired :: "jsnum \<Rightarrow> int \<Rightarrow> bool" where
  "birthday_expired cd n = js_lt (js_sub cd (num n)) (num 0)"

text \<open>
  Runs used as examples. The page is loaded on 2025-09-29 at 23:59:59 local
  time, one second before the birthday deadline, and the callback then runs
  at the given readings; and \<open>golf.js\<close> is loaded fifteen seconds after its
  deadline has passed.
\<close>

definition sep29 :: js_date where
  "sep29 = \<lparr>getFullYear = 2025, getMonth = 8, getDate = 29, ms_of_day = 86399000\<rparr>"

definition sep30_noon :: js_date where
  "sep30_noon = \<lparr>getFullYear = 2025, getMonth = 8, getDate = 30, ms_of_day = 43200000\<rparr>"

definition oct01 :: js_date where
  "oct01 = \<lparr>getFullYear = 2025, getMonth = 9, getDate = 1, ms_of_day = 0\<rparr>"

definition birthday_twice_at_zero :: "world \<times> int list" where
  "birthday_twice_at_zero =
     countdown_ticks sep29 [1759190400000, 1759190400000] (page 1759190399000)"

definition birthday_through_zero :: "world \<times> int list" where
  "birthday_through_zero =
     countdown_ticks sep29 [1759190400000, 1759190400004, 1759190400008] (page 1759190399000)"

definition golf_loaded_late :: "world \<times> int list" where
  "golf_loaded_late = golf_main [1756655956000, 1756655957000] (page 1756655955500)"

definition golf_unparseable :: "world \<times> int list" where
  "golf_unparseable = run_clock_ticks NaN [1000, 2000] (page 0)"

section \<open>Arithmetic of the decomposition\<close>

lemma trunc_of_int_div:
  assumes "0 < b" shows "trunc (of_int a / of_int b) = a sdiv b"
proof (cases "a < 0")
  case True
  then have neg: "(of_int a / of_int b :: rat) < 0" using assms by (simp add: divide_neg_pos)
  have "\<lceil>(of_int a / of_int b :: rat)\<rceil> = - \<lfloor>(of_int (- a) / of_int b :: rat)\<rfloor>"
    by (simp add: ceiling_def)
  also have "\<dots> = - ((- a) div b)" by (simp only: floor_divide_of_int_eq)
  finally show ?thesis using True assms neg by (simp add: trunc_def signed_divide_int_def)
next
  case False
  then have "\<not> (of_int a / of_int b :: rat) < 0" using assms by (simp add: not_less)
  then show ?thesis using False assms by (simp add: trunc_def signed_divide_int_def floor_divide_of_int_eq sgn_if)
qed

lemma js_rem_num:
  assumes "0 < b"
  shows "js_rem (num a) (num b) = num (a smod b)"
proof -
  have "(of_int (a smod b) :: rat) = of_int a - of_int b * of_int (a sdiv b)"
    by (simp add: minus_mult_sdiv_eq_smod [symmetric])
  then show ?thesis using assms trunc_of_int_div [OF assms, of a] by simp
qed

lemma floor_rem_then_div:
  assumes "0 < b" "0 < c"
  shows "Math_floor (js_div (js_rem (num a) (num b)) (num c)) = num ((a smod b) div c)"
  unfolding js_rem_num [OF assms(1)] using assms(2) by (simp add: floor_divide_of_int_eq)

lemma spec_days_div: "spec_days T = T div 86400000"
  using floor_divide_of_int_eq [of T 86400000, where ?'a = rat] by (simp add: spec_days_def)
lemma spec_hours_div: "spec_hours T = (T smod 86400000) div 3600000"
  using floor_divide_of_int_eq [of "T smod 86400000" 3600000, where ?'a = rat] by (simp add: spec_hours_def)
lemma spec_minutes_div: "spec_minutes T = (T smod 3600000) div 60000"
  using floor_divide_of_int_eq [of "T smod 3600000" 60000, where ?'a = rat] by (simp add: spec_minutes_def)
lemma spec_seconds_div: "spec_seconds T = (T smod 60000) div 1000"
  using floor_divide_of_int_eq [of "T smod 60000" 1000, where ?'a = rat] by (simp add: spec_seconds_def)

lemma smod_nonneg: "0 \<le> a \<Longrightarrow> 0 < b \<Longrightarrow> a smod b = a mod (b::int)"
  by (simp add: signed_modulo_int_def sgn_if)

lemma telescope: "0 < c \<Longrightarrow> c dvd b \<Longrightarrow> (a mod b) div c * c = a mod b - a mod (c::int)"
  by (metis minus_mod_eq_div_mult mod_mod_cancel)

lemma recombine_nonneg:
  assumes "0 \<le> T"
  shows "recombine (spec_days T) (spec_hours T) (spec_minutes T) (spec_seconds T) = T - T mod 1000"
proof -
  have "T div 86400000 * 86400000 = T - T mod 86400000" by (simp add: minus_mod_eq_div_mult)
  moreover have "(T mod 86400000) div 3600000 * 3600000 = T mod 86400000 - T mod 3600000"
    by (rule telescope) simp_all
  moreover have "(T mod 3600000) div 60000 * 60000 = T mod 3600000 - T mod 60000"
    by (rule telescope) simp_all
  moreover have "(T mod 60000) div 1000 * 1000 = T mod 60000 - T mod 1000"
    by (rule telescope) simp_all
  ultimately show ?thesis using assms
    by (simp add: recombine_def spec_days_div spec_hours_div spec_minutes_div spec_seconds_div smod_nonneg)
qed

lemma fields_nonneg:
  assumes "0 \<le> T"
  shows "0 \<le> spec_days T" "0 \<le> spec_hours T" "0 \<le> spec_minutes T" "0 \<le> spec_seconds T"
  using assms by (simp_all add: spec_days_div spec_hours_div spec_minutes_div spec_seconds_div smod_nonneg pos_imp_zdiv_nonneg_iff)

lemma fields_bounds:
  assumes "0 \<le> T"
  shows "spec_hours T < 24" "spec_minutes T < 60" "spec_seconds T < 60"
proof -
  have "T mod 86400000 < 86400000" "T mod 3600000 < 3600000" "T mod 60000 < 60000" by simp_all
  then show "spec_hours T < 24" "spec_minutes T < 60" "spec_seconds T < 60"
    using assms by (simp_all add: spec_hours_div spec_minutes_div spec_seconds_div smod_nonneg)
qed


lemma golf_div_div:
  "0 < c \<Longrightarrow> 0 < b \<Longrightarrow> js_div (js_div (num a) (num c)) (num b) = js_div (num a) (num (c * b))"
  by simp

lemma rem_div_of_int:
  assumes "0 < b" "0 < c"
  shows "js_rem (js_div (num a) (num c)) (num b) = Fin (of_int (a smod (b * c)) / of_int c)"
proof -
  have q: "(of_int a / of_int c / of_int b :: rat) = of_int a / of_int (b * c)"
    by (simp add: mult.commute)
  have bc: "0 < b * c" using assms by simp
  have t: "trunc (of_int a / of_int c / of_int b) = a sdiv (b * c)"
    unfolding q by (rule trunc_of_int_div [OF bc])
  have "(of_int (a smod (b * c)) :: rat) = of_int a - of_int (b * c) * of_int (a sdiv (b * c))"
    by (simp add: minus_mult_sdiv_eq_smod [symmetric])
  then have "(of_int (a smod (b * c)) / of_int c :: rat)
      = of_int a / of_int c - of_int b * of_int (a sdiv (b * c))"
    using assms by (simp add: field_simps)
  then show ?thesis using assms t by simp
qed

lemma floor_div_then_rem:
  assumes "0 < b" "0 < c"
  shows "Math_floor (js_rem (js_div (num a) (num c)) (num b)) = num ((a smod (b * c)) div c)"
  by (simp only: rem_div_of_int [OF assms] Math_floor.simps floor_divide_of_int_eq)

lemma floor_div_num: "0 < c \<Longrightarrow> Math_floor (js_div (num a) (num c)) = num (a div c)"
  by (simp add: floor_divide_of_int_eq)

lemma time_remaining_fields:
  "fst (time_remaining (num d) w) =
    (let T = d - clock w div 1000 * 1000 in
     \<lparr>total = num T, days = num (spec_days T), hours = num (spec_hours T),
      minutes = num (spec_minutes T), seconds = num (spec_seconds T)\<rparr>)"
proof -
  define T where "T = d - clock w div 1000 * 1000"
  have s: "Math_floor (js_rem (js_div (num T) (num 1000)) (num 60)) = num (spec_seconds T)"
    using floor_div_then_rem [of 60 1000 T] by (simp add: spec_seconds_div)
  have m: "Math_floor (js_rem (js_div (js_div (num T) (num 1000)) (num 60)) (num 60)) = num (spec_minutes T)"
    using floor_div_then_rem [of 60 60000 T] golf_div_div [of 1000 60 T] by (simp add: spec_minutes_div)
  have h: "Math_floor (js_rem (js_div (num T) (num (1000 * 60 * 60))) (num 24)) = num (spec_hours T)"
    using floor_div_then_rem [of 24 3600000 T] by (simp add: spec_hours_div)
  have dd: "Math_floor (js_div (num T) (num (1000 * 60 * 60 * 24))) = num (spec_days T)"
    using floor_div_num [of 86400000 T] by (simp add: spec_days_div)
  have tt: "js_sub (num d) (num (clock w div 1000 * 1000)) = num T"
    by (simp add: T_def)
  show ?thesis
    unfolding time_remaining_def Date_parse_new_Date_def Let_def split_conv fst_conv tt s m h dd T_def [symmetric]
    by simp
qed

lemma time_remaining_world: "snd (time_remaining e w) = w"
  by (simp add: time_remaining_def Date_parse_new_Date_def Let_def)

lemma clearInterval_simps [simp]:
  "clock (clearInterval ho w) = clock w"
  "text_of (clearInterval ho w) = text_of w"
  "display_of (clearInterval ho w) = display_of w"
  "next_handle (clearInterval ho w) = next_handle w"
  "calls (clearInterval ho w) = calls w @ [ClearInterval ho]"
  "intervals (clearInterval None w) = intervals w"
  "intervals (clearInterval (Some h) w) = removeAll h (intervals w)"
  by (simp_all add: clearInterval_def Let_def split: option.split)

lemma set_text_simps [simp]:
  "clock (set_text el s w) = clock w"
  "text_of (set_text el s w) = (text_of w)(el := s)"
  "display_of (set_text el s w) = display_of w"
  "next_handle (set_text el s w) = next_handle w"
  "calls (set_text el s w) = calls w @ [SetText el s]"
  "intervals (set_text el s w) = intervals w"
  by (simp_all add: set_text_def)

lemma set_display_simps [simp]:
  "clock (set_display el s w) = clock w"
  "text_of (set_display el s w) = text_of w"
  "display_of (set_display el s w) = (display_of w)(el := s)"
  "next_handle (set_display el s w) = next_handle w"
  "calls (set_display el s w) = calls w @ [SetDisplay el s]"
  "intervals (set_display el s w) = intervals w"
  by (simp_all add: set_display_def)

lemma setInterval_simps [simp]:
  "fst (setInterval w) = next_handle w"
  "clock (snd (setInterval w)) = clock w"
  "text_of (snd (setInterval w)) = text_of w"
  "display_of (snd (setInterval w)) = display_of w"
  "next_handle (snd (setInterval w)) = Suc (next_handle w)"
  "calls (snd (setInterval w)) = calls w @ [SetInterval (next_handle w)]"
  "intervals (snd (setInterval w)) = next_handle w # intervals w"
  by (simp_all add: setInterval_def Let_def)

lemma countdown_tick_fields:
  "text_of (countdown_tick (num d) x w) ''days'' = show_int (spec_days (d - clock w))"
  "text_of (countdown_tick (num d) x w) ''hours'' = show_int (spec_hours (d - clock w))"
  "text_of (countdown_tick (num d) x w) ''minutes'' = show_int (spec_minutes (d - clock w))"
  "text_of (countdown_tick (num d) x w) ''seconds'' = show_int (spec_seconds (d - clock w))"
proof -
  define T where "T = d - clock w"
  have tt: "js_sub (num d) (num (clock w)) = num T" by (simp add: T_def)
  have dd: "Math_floor (js_div (num T) (num day)) = num (spec_days T)"
    using floor_div_num [of day T] by (simp add: spec_days_div day_def hour_def minute_def second_def)
  have h: "Math_floor (js_div (js_rem (num T) (num day)) (num hour)) = num (spec_hours T)"
    using floor_rem_then_div [of day hour T] by (simp add: spec_hours_div day_def hour_def minute_def second_def)
  have m: "Math_floor (js_div (js_rem (num T) (num hour)) (num minute)) = num (spec_minutes T)"
    using floor_rem_then_div [of hour minute T] by (simp add: spec_minutes_div hour_def minute_def second_def)
  have s: "Math_floor (js_div (js_rem (num T) (num minute)) (num second)) = num (spec_seconds T)"
    using floor_rem_then_div [of minute second T] by (simp add: spec_seconds_div minute_def second_def)
  show "text_of (countdown_tick (num d) x w) ''days'' = show_int (spec_days (d - clock w))"
    unfolding countdown_tick_def Let_def tt dd h m s T_def [symmetric]
    by simp
  show "text_of (countdown_tick (num d) x w) ''hours'' = show_int (spec_hours (d - clock w))"
    unfolding countdown_tick_def Let_def tt dd h m s T_def [symmetric]
    by simp
  show "text_of (countdown_tick (num d) x w) ''minutes'' = show_int (spec_minutes (d - clock w))"
    unfolding countdown_tick_def Let_def tt dd h m s T_def [symmetric]
    by simp
  show "text_of (countdown_tick (num d) x w) ''seconds'' = show_int (spec_seconds (d - clock w))"
    unfolding countdown_tick_def Let_def tt dd h m s T_def [symmetric]
    by simp
qed

lemma smod_eval:
  "(500::int) smod 86400000 = 500" "(500::int) smod 3600000 = 500" "(500::int) smod 60000 = 500"
  "(3600000::int) smod 86400000 = 3600000" "(3600000::int) smod 3600000 = 0"
  "(3600000::int) smod 60000 = 0"
  "(2678400000::int) smod 86400000 = 0" "(2678400000::int) smod 3600000 = 0"
  "(2678400000::int) smod 60000 = 0"
  by (simp_all add: signed_modulo_int_def)

section \<open>The decomposition of the remaining time\<close>

text \<open>
  C2. For every deadline and every clock reading, the fields that
  \<open>time_remaining\<close> returns and the four numbers that the birthday countdown
  writes are the days, hours, minutes and seconds of the specification's
  formulas, taken of the signed difference deadline minus now. For
  \<open>time_remaining\<close>, now is what \<^verbatim>\<open>Date.parse(new Date())\<close> reads.
\<close>

theorem fields_follow_formulas:
  "fst (time_remaining (num dl) w) =
     \<lparr>total = num (dl - clock w div 1000 * 1000),
      days = num (spec_days (dl - clock w div 1000 * 1000)),
      hours = num (spec_hours (dl - clock w div 1000 * 1000)),
      minutes = num (spec_minutes (dl - clock w div 1000 * 1000)),
      seconds = num (spec_seconds (dl - clock w div 1000 * 1000))\<rparr>
   \<and> text_of (countdown_tick (num dl) x w) ''days'' = show_int (spec_days (dl - clock w))
   \<and> text_of (countdown_tick (num dl) x w) ''hours'' = show_int (spec_hours (dl - clock w))
   \<and> text_of (countdown_tick (num dl) x w) ''minutes'' = show_int (spec_minutes (dl - clock w))
   \<and> text_of (countdown_tick (num dl) x w) ''seconds'' = show_int (spec_seconds (dl - clock w))"
  by (simp add: time_remaining_fields countdown_tick_fields Let_def)

text \<open>
  C3, as the claim states it, fails: with the deadline half a second after
  the reading, every field is zero and the fields rebuild 0, not the total of
  500 ms. The birthday countdown, whose clock has milliseconds, writes four
  zeros at the same distance.
\<close>

theorem roundtrip_counterexample:
  "fst (time_remaining (num 1759190400500) (page 1759190400000)) =
     \<lparr>total = num 500, days = num 0, hours = num 0, minutes = num 0, seconds = num 0\<rparr>
   \<and> recombine 0 0 0 0 \<noteq> 500
   \<and> text_of (countdown_tick (num 1759190400000) (Some 0) (page 1759190399500)) ''seconds'' = ''0''"
  using time_remaining_fields [of 1759190400500 "page 1759190400000"]
    countdown_tick_fields(4) [of 1759190400000 "Some 0" "page 1759190399500"]
  by (simp add: page_def Let_def recombine_def
        spec_days_div spec_hours_div spec_minutes_div spec_seconds_div smod_eval
        show_int_def show_nat.simps digit_char_def)

text \<open>
  C3, amended. When now is not after the deadline, the four fields are not
  negative and rebuild the total without its milliseconds, \<open>T - T mod 1000\<close>;
  so they rebuild the total itself exactly when it is a whole number of
  seconds. This holds for the fields \<open>time_remaining\<close> returns and for the
  numbers the birthday countdown writes.
\<close>

theorem roundtrip_whole_seconds:
  "(clock w div 1000 * 1000 \<le> dl \<longrightarrow>
      (\<exists>D H M S. fst (time_remaining (num dl) w) =
           \<lparr>total = num (dl - clock w div 1000 * 1000),
            days = num D, hours = num H, minutes = num M, seconds = num S\<rparr>
         \<and> 0 \<le> D \<and> 0 \<le> H \<and> 0 \<le> M \<and> 0 \<le> S
         \<and> recombine D H M S =
             (dl - clock w div 1000 * 1000) - (dl - clock w div 1000 * 1000) mod 1000))
   \<and> (clock w \<le> dl \<longrightarrow>
      (\<exists>D H M S.
           text_of (countdown_tick (num dl) x w) ''days'' = show_int D
         \<and> text_of (countdown_tick (num dl) x w) ''hours'' = show_int H
         \<and> text_of (countdown_tick (num dl) x w) ''minutes'' = show_int M
         \<and> text_of (countdown_tick (num dl) x w) ''seconds'' = show_int S
         \<and> 0 \<le> D \<and> 0 \<le> H \<and> 0 \<le> M \<and> 0 \<le> S
         \<and> recombine D H M S = (dl - clock w) - (dl - clock w) mod 1000))"
proof (intro conjI impI)
  assume le: "clock w div 1000 * 1000 \<le> dl"
  define T where "T = dl - clock w div 1000 * 1000"
  have T: "0 \<le> T" using le by (simp add: T_def)
  show "\<exists>D H M S. fst (time_remaining (num dl) w) =
           \<lparr>total = num (dl - clock w div 1000 * 1000),
            days = num D, hours = num H, minutes = num M, seconds = num S\<rparr>
         \<and> 0 \<le> D \<and> 0 \<le> H \<and> 0 \<le> M \<and> 0 \<le> S
         \<and> recombine D H M S =
             (dl - clock w div 1000 * 1000) - (dl - clock w div 1000 * 1000) mod 1000"
    unfolding T_def [symmetric]
    apply (rule exI [of _ "spec_days T"], rule exI [of _ "spec_hours T"])
    apply (rule exI [of _ "spec_minutes T"], rule exI [of _ "spec_seconds T"])
    using fields_nonneg [OF T] recombine_nonneg [OF T]
    by (simp add: time_remaining_fields Let_def T_def)
next
  assume le: "clock w \<le> dl"
  define T where "T = dl - clock w"
  have T: "0 \<le> T" using le by (simp add: T_def)
  show "\<exists>D H M S.
           text_of (countdown_tick (num dl) x w) ''days'' = show_int D
         \<and> text_of (countdown_tick (num dl) x w) ''hours'' = show_int H
         \<and> text_of (countdown_tick (num dl) x w) ''minutes'' = show_int M
         \<and> text_of (countdown_tick (num dl) x w) ''seconds'' = show_int S
         \<and> 0 \<le> D \<and> 0 \<le> H \<and> 0 \<le> M \<and> 0 \<le> S
         \<and> recombine D H M S = (dl - clock w) - (dl - clock w) mod 1000"
    unfolding T_def [symmetric]
    apply (rule exI [of _ "spec_days T"], rule exI [of _ "spec_hours T"])
    apply (rule exI [of _ "spec_minutes T"], rule exI [of _ "spec_seconds T"])
    using fields_nonneg [OF T] recombine_nonneg [OF T]
    by (simp add: countdown_tick_fields T_def)
qed

theorem roundtrip_whole_seconds_witness:
  "clock (page 1759186800250) div 1000 * 1000 \<le> 1759190400000
   \<and> clock (page 1759186800250) \<le> 1759190400000
   \<and> (\<exists>D H M S. fst (time_remaining (num 1759190400000) (page 1759186800250)) =
           \<lparr>total = num 3600000,
            days = num D, hours = num H, minutes = num M, seconds = num S\<rparr>
         \<and> recombine D H M S = 3600000)
   \<and> (\<exists>D H M S.
           text_of (countdown_tick (num 1759190400000) (Some 0) (page 1759186800250)) ''seconds''
             = show_int S
         \<and> text_of (countdown_tick (num 1759190400000) (Some 0) (page 1759186800250)) ''days''
             = show_int D
         \<and> text_of (countdown_tick (num 1759190400000) (Some 0) (page 1759186800250)) ''hours''
             = show_int H
         \<and> text_of (countdown_tick (num 1759190400000) (Some 0) (page 1759186800250)) ''minutes''
             = show_int M
         \<and> recombine D H M S = 3599000)"
  using roundtrip_whole_seconds [of "page 1759186800250" 1759190400000 "Some 0"]
  by (simp add: page_def) blast

text \<open>
  C9. The two worked examples: one hour before 2025-09-30T00:00:00Z the result
  is 0 days, 1 hour, 0 minutes, 0 seconds; 31 days before, at
  2025-08-30T00:00:00Z, it is 31 days, 0 hours, 0 minutes, 0 seconds.
\<close>

theorem worked_examples:
  "fst (time_remaining (num (days_from_civil 2025 9 30 * ms_per_day))
          (w\<lparr>clock := days_from_civil 2025 9 29 * ms_per_day + 23 * 3600000\<rparr>)) =
     \<lparr>total = num 3600000, days = num 0, hours = num 1, minutes = num 0, seconds = num 0\<rparr>
   \<and> fst (time_remaining (num (days_from_civil 2025 9 30 * ms_per_day))
          (w\<lparr>clock := days_from_civil 2025 8 30 * ms_per_day\<rparr>)) =
     \<lparr>total = num 2678400000, days = num 31, hours = num 0, minutes = num 0, seconds = num 0\<rparr>"
  using time_remaining_fields [of 1759190400000 "w\<lparr>clock := 1759186800000\<rparr>"]
    time_remaining_fields [of 1759190400000 "w\<lparr>clock := 1756512000000\<rparr>"]
  by (simp add: Let_def days_from_civil_def leap_days_def ms_per_day_def
        spec_days_div spec_hours_div spec_minutes_div spec_seconds_div smod_eval)

section \<open>Runs of the two countdowns\<close>

lemma time_remaining_total:
  "total (fst (time_remaining e w)) = js_sub e (num (clock w div 1000 * 1000))"
  by (simp add: time_remaining_def Date_parse_new_Date_def Let_def)

lemma lifecycle_simps [simp]:
  "lifecycle (clearInterval ho w) = lifecycle w @ [ClearInterval ho]"
  "lifecycle (set_display el s w) = lifecycle w @ [SetDisplay el s]"
  "lifecycle (snd (setInterval w)) = lifecycle w @ [SetInterval (next_handle w)]"
  "lifecycle (set_text el s w) = lifecycle w @ (if slot_write (SetText el s) then [] else [SetText el s])"
  "lifecycle (w\<lparr>clock := n\<rparr>) = lifecycle w"
  by (simp_all add: lifecycle_def)

lemma golf_expired_eq:
  "golf_expired e n = js_le (js_sub e (num (n div 1000 * 1000))) (num 0)"
  by (simp add: golf_expired_def time_remaining_total page_def)

lemma update_clock_intervals:
  "intervals (update_clock e ti w) =
     (if golf_expired e (clock w) then (case ti of None \<Rightarrow> intervals w | Some h \<Rightarrow> removeAll h (intervals w))
      else intervals w)"
  by (simp add: update_clock_def Let_def split_beta time_remaining_total time_remaining_world golf_expired_eq split: option.split)

lemma update_clock_lifecycle:
  "lifecycle (update_clock e ti w) =
     lifecycle w @ (if golf_expired e (clock w) then [ClearInterval ti] else [])"
  by (simp add: update_clock_def Let_def split_beta time_remaining_total time_remaining_world golf_expired_eq)

lemma update_clock_next_handle: "next_handle (update_clock e ti w) = next_handle w"
  by (simp add: update_clock_def Let_def split_beta time_remaining_world)

lemma update_clock_clock: "clock (update_clock e ti w) = clock w"
  by (simp add: update_clock_def Let_def split_beta time_remaining_world)

lemma deliver_disarmed:
  "h \<notin> set (intervals w) \<Longrightarrow>
     snd (deliver cb h ns w) = [] \<and> lifecycle (fst (deliver cb h ns w)) = lifecycle w
     \<and> intervals (fst (deliver cb h ns w)) = intervals w
     \<and> text_of (fst (deliver cb h ns w)) = text_of w
     \<and> calls (fst (deliver cb h ns w)) = calls w"
  by (induction ns arbitrary: w) simp_all

lemma golf_run:
  assumes "h \<in> set (intervals w)"
  shows "snd (deliver (update_clock e (Some h)) h nows w) = upto_first (golf_expired e) nows
    \<and> lifecycle (fst (deliver (update_clock e (Some h)) h nows w)) =
        lifecycle w @ (if list_ex (golf_expired e) nows then [ClearInterval (Some h)] else [])
    \<and> (h \<in> set (intervals (fst (deliver (update_clock e (Some h)) h nows w)))
         \<longleftrightarrow> \<not> list_ex (golf_expired e) nows)"
  using assms
proof (induction nows arbitrary: w)
  case Nil
  then show ?case by simp
next
  case (Cons n ns)
  let ?w1 = "update_clock e (Some h) (w\<lparr>clock := n\<rparr>)"
  show ?case
  proof (cases "golf_expired e n")
    case True
    then have off: "h \<notin> set (intervals ?w1)" by (simp add: update_clock_intervals)
    have lc: "lifecycle ?w1 = lifecycle w @ [ClearInterval (Some h)]"
      using True by (simp add: update_clock_lifecycle)
    show ?thesis using Cons.prems True off deliver_disarmed [OF off, of "update_clock e (Some h)" ns] lc
      by (simp add: split_beta)
  next
    case False
    then have on: "h \<in> set (intervals ?w1)" using Cons.prems by (simp add: update_clock_intervals)
    have lc: "lifecycle ?w1 = lifecycle w"
      using False by (simp add: update_clock_lifecycle)
    show ?thesis using Cons.prems False Cons.IH [OF on] lc
      by (simp add: split_beta)
  qed
qed

lemma countdown_tick_intervals:
  "intervals (countdown_tick cd xo w) =
     (if birthday_expired cd (clock w) then (case xo of None \<Rightarrow> intervals w | Some h \<Rightarrow> removeAll h (intervals w))
      else intervals w)"
  by (simp add: countdown_tick_def Let_def birthday_expired_def split: option.split)

lemma countdown_tick_lifecycle:
  "lifecycle (countdown_tick cd (Some x) w) =
     lifecycle w @ (if birthday_expired cd (clock w) then expiry_calls x else [])"
  by (simp add: countdown_tick_def Let_def birthday_expired_def expiry_calls_def)

lemma birthday_run:
  assumes "x \<in> set (intervals w)"
  shows "snd (deliver (countdown_tick cd (Some x)) x nows w) = upto_first (birthday_expired cd) nows
    \<and> lifecycle (fst (deliver (countdown_tick cd (Some x)) x nows w)) =
        lifecycle w @ (if list_ex (birthday_expired cd) nows then expiry_calls x else [])
    \<and> (x \<in> set (intervals (fst (deliver (countdown_tick cd (Some x)) x nows w)))
         \<longleftrightarrow> \<not> list_ex (birthday_expired cd) nows)"
  using assms
proof (induction nows arbitrary: w)
  case Nil
  then show ?case by simp
next
  case (Cons n ns)
  let ?w1 = "countdown_tick cd (Some x) (w\<lparr>clock := n\<rparr>)"
  show ?case
  proof (cases "birthday_expired cd n")
    case True
    then have off: "x \<notin> set (intervals ?w1)" by (simp add: countdown_tick_intervals)
    have lc: "lifecycle ?w1 = lifecycle w @ expiry_calls x"
      using True by (simp add: countdown_tick_lifecycle)
    show ?thesis using Cons.prems True off deliver_disarmed [OF off, of "countdown_tick cd (Some x)" ns] lc
      by (simp add: split_beta)
  next
    case False
    then have on: "x \<in> set (intervals ?w1)" using Cons.prems by (simp add: countdown_tick_intervals)
    have lc: "lifecycle ?w1 = lifecycle w"
      using False by (simp add: countdown_tick_lifecycle)
    show ?thesis using Cons.prems False Cons.IH [OF on] lc
      by (simp add: split_beta)
  qed
qed

lemma expired_simps:
  "golf_expired (Fin q) n \<longleftrightarrow> q \<le> of_int (n div 1000 * 1000)"
  "golf_expired NaN n \<longleftrightarrow> False"
  "birthday_expired (Fin q) n \<longleftrightarrow> q < of_int n"
  "birthday_expired NaN n \<longleftrightarrow> False"
  by (simp_all add: golf_expired_eq birthday_expired_def)

lemma upto_first_never: "upto_first (\<lambda>n. False) ns = ns"
  by (induction ns) simp_all

lemma run_clock_ticks_eq:
  "run_clock_ticks e nows w =
     deliver (update_clock e (Some (next_handle w))) (next_handle w) nows
       (snd (setInterval (update_clock e None w)))"
  by (simp add: run_clock_ticks_def run_clock_def setInterval_def Let_def update_clock_next_handle)

lemma countdown_ticks_eq:
  "countdown_ticks today nows w =
     deliver (countdown_tick (countDown today) (Some (next_handle w))) (next_handle w) nows
       (snd (setInterval w))"
  by (simp add: countdown_ticks_def countdown_def setInterval_def Let_def)

lemma golf_from_start:
  "snd (run_clock_ticks e nows w) = upto_first (golf_expired e) nows
   \<and> lifecycle (fst (run_clock_ticks e nows w)) =
       lifecycle w @ (if golf_expired e (clock w) then [ClearInterval None] else [])
         @ [SetInterval (next_handle w)]
         @ (if list_ex (golf_expired e) nows then [ClearInterval (Some (next_handle w))] else [])
   \<and> (next_handle w \<in> set (intervals (fst (run_clock_ticks e nows w)))
        \<longleftrightarrow> \<not> list_ex (golf_expired e) nows)"
proof -
  let ?w1 = "snd (setInterval (update_clock e None w))"
  have armed: "next_handle w \<in> set (intervals ?w1)"
    by (simp add: update_clock_next_handle)
  have lc: "lifecycle ?w1 = lifecycle w @ (if golf_expired e (clock w) then [ClearInterval None] else [])
         @ [SetInterval (next_handle w)]"
    by (simp add: update_clock_next_handle update_clock_lifecycle)
  show ?thesis
    unfolding run_clock_ticks_eq using golf_run [OF armed, of e nows] lc by simp
qed

lemma birthday_from_start:
  "snd (countdown_ticks today nows w) = upto_first (birthday_expired (countDown today)) nows
   \<and> lifecycle (fst (countdown_ticks today nows w)) =
       lifecycle w @ [SetInterval (next_handle w)]
         @ (if list_ex (birthday_expired (countDown today)) nows
            then expiry_calls (next_handle w) else [])
   \<and> (next_handle w \<in> set (intervals (fst (countdown_ticks today nows w)))
        \<longleftrightarrow> \<not> list_ex (birthday_expired (countDown today)) nows)"
proof -
  have armed: "next_handle w \<in> set (intervals (snd (setInterval w)))" by simp
  show ?thesis
    unfolding countdown_ticks_eq
    using birthday_run [OF armed, of "countDown today" nows] by simp
qed

lemma countDown_sep29: "countDown sep29 = Fin 1759190400000"
  by (simp add: sep29_def countDown_def birthday_def Let_def padStart2_def show_int_def
        show_nat.simps digit_char_def Date_of_mdy_def parse_nat_def digit_val_def
        days_from_civil_def leap_days_def ms_per_day_def)

lemma page_simps [simp]:
  "clock (page n) = n" "intervals (page n) = []" "next_handle (page n) = 0"
  "calls (page n) = []" "lifecycle (page n) = []"
  by (simp_all add: page_def lifecycle_def)

section \<open>Expiry and the life of the interval\<close>

text \<open>
  C10. In \<open>run_clock\<close> the first update runs before the interval exists.
  When the deadline has already passed at that moment (and the clock does not
  run backwards), the first update calls \<^verbatim>\<open>clearInterval\<close> on the undefined
  handle, the interval is armed all the same, exactly one scheduled tick is
  delivered, and that tick clears the interval.
\<close>

theorem first_update_cannot_cancel:
  assumes "dl \<le> clock w div 1000 * 1000" and "clock w \<le> n"
  shows "lifecycle (snd (run_clock (num dl) w)) =
           lifecycle w @ [ClearInterval None, SetInterval (next_handle w)]
       \<and> next_handle w \<in> set (intervals (snd (run_clock (num dl) w)))
       \<and> snd (run_clock_ticks (num dl) (n # ns) w) = [n]
       \<and> lifecycle (fst (run_clock_ticks (num dl) (n # ns) w)) =
           lifecycle w @ [ClearInterval None, SetInterval (next_handle w),
                          ClearInterval (Some (next_handle w))]
       \<and> next_handle w \<notin> set (intervals (fst (run_clock_ticks (num dl) (n # ns) w)))"
proof -
  have e0: "golf_expired (num dl) (clock w)"
    using assms(1) by (simp add: expired_simps)
  have "clock w div 1000 * 1000 \<le> n div 1000 * 1000"
    using assms(2) by (simp add: zdiv_mono1)
  then have e1: "golf_expired (num dl) n"
    using assms(1) by (simp add: expired_simps)
  have a: "lifecycle (snd (run_clock (num dl) w)) =
           lifecycle w @ [ClearInterval None, SetInterval (next_handle w)]"
    using e0 by (simp add: run_clock_def update_clock_lifecycle update_clock_next_handle)
  have b: "next_handle w \<in> set (intervals (snd (run_clock (num dl) w)))"
    by (simp add: run_clock_def update_clock_next_handle)
  show ?thesis
    using a b e0 e1 golf_from_start [of "num dl" "n # ns" w] by simp
qed

theorem first_update_cannot_cancel_witness:
  "deadline = num 1756655940000
   \<and> 1756655940000 \<le> clock (page 1756655955500) div 1000 * 1000
   \<and> clock (page 1756655955500) \<le> 1756655956000
   \<and> snd golf_loaded_late = [1756655956000]
   \<and> lifecycle (fst golf_loaded_late) = [ClearInterval None, SetInterval 0, ClearInterval (Some 0)]
   \<and> 0 \<notin> set (intervals (fst golf_loaded_late))"
  using first_update_cannot_cancel [of 1756655940000 "page 1756655955500" 1756655956000 "[1756655957000]"]
  by (simp add: golf_loaded_late_def golf_main_def deadline_def)

text \<open>
  C1, as the claim states it, fails in two places. Loaded after its deadline,
  \<open>golf.js\<close> computes a total below zero in its first update and a tick is
  delivered after that. In the birthday countdown the tick that computes a
  distance of exactly zero cancels nothing: the next tick is delivered, and
  only that one runs the expiry effects.
\<close>

theorem expiry_counterexample:
  "js_le (total (fst (time_remaining deadline (page 1756655955500)))) (num 0)
   \<and> snd golf_loaded_late = [1756655956000]
   \<and> js_le (js_sub (countDown sep29) (num 1759190400000)) (num 0)
   \<and> snd birthday_through_zero = [1759190400000, 1759190400004]
   \<and> lifecycle (fst birthday_through_zero) = SetInterval 0 # expiry_calls 0"
  using golf_from_start [of deadline "[1756655956000, 1756655957000]" "page 1756655955500"]
    birthday_from_start [of sep29 "[1759190400000, 1759190400004, 1759190400008]" "page 1759190399000"]
  by (simp add: golf_loaded_late_def golf_main_def birthday_through_zero_def deadline_def
        countDown_sep29 expired_simps time_remaining_total)

text \<open>
  C1, amended. Of the ticks the host offers to an armed interval, those
  delivered are the ones up to and including the first that meets the
  countdown's own test: a total of zero or less for \<open>update_clock\<close>, a
  distance below zero for the birthday countdown. That tick cancels the
  interval with one call of \<^verbatim>\<open>clearInterval\<close> on its handle, in the birthday
  countdown after the expiry effects, which so happen once; if no reading
  meets the test, nothing is cancelled and every tick is delivered.
  \<open>update_clock\<close> has no expiry effect of its own.
\<close>

theorem expiry_stops_ticks:
  "(h \<in> set (intervals w) \<longrightarrow>
      snd (deliver (update_clock e (Some h)) h nows w) = upto_first (golf_expired e) nows
    \<and> lifecycle (fst (deliver (update_clock e (Some h)) h nows w)) =
        lifecycle w @ (if list_ex (golf_expired e) nows then [ClearInterval (Some h)] else [])
    \<and> (h \<in> set (intervals (fst (deliver (update_clock e (Some h)) h nows w)))
         \<longleftrightarrow> \<not> list_ex (golf_expired e) nows))
   \<and> (h \<in> set (intervals w) \<longrightarrow>
      snd (deliver (countdown_tick e (Some h)) h nows w) = upto_first (birthday_expired e) nows
    \<and> lifecycle (fst (deliver (countdown_tick e (Some h)) h nows w)) =
        lifecycle w @ (if list_ex (birthday_expired e) nows then expiry_calls h else [])
    \<and> (h \<in> set (intervals (fst (deliver (countdown_tick e (Some h)) h nows w)))
         \<longleftrightarrow> \<not> list_ex (birthday_expired e) nows))"
  using golf_run [of h w e nows] birthday_run [of h w e nows] by blast

theorem expiry_stops_ticks_witness:
  "0 \<in> set (intervals (snd (setInterval (page 0))))
   \<and> snd (deliver (update_clock (num 2000) (Some 0)) 0 [1000, 2000, 3000, 4000]
            (snd (setInterval (page 0)))) = [1000, 2000]
   \<and> lifecycle (fst (deliver (update_clock (num 2000) (Some 0)) 0 [1000, 2000, 3000, 4000]
            (snd (setInterval (page 0))))) = [SetInterval 0, ClearInterval (Some 0)]
   \<and> snd (deliver (countdown_tick (num 2000) (Some 0)) 0 [1000, 2000, 2001, 2002]
            (snd (setInterval (page 0)))) = [1000, 2000, 2001]
   \<and> lifecycle (fst (deliver (countdown_tick (num 2000) (Some 0)) 0 [1000, 2000, 2001, 2002]
            (snd (setInterval (page 0))))) = SetInterval 0 # expiry_calls 0"
  using expiry_stops_ticks [of 0 "snd (setInterval (page 0))" "num 2000" "[1000, 2000, 3000, 4000]"]
    expiry_stops_ticks [of 0 "snd (setInterval (page 0))" "num 2000" "[1000, 2000, 2001, 2002]"]
  by (simp add: expired_simps)

lemma spec_zero: "spec_days 0 = 0" "spec_hours 0 = 0" "spec_minutes 0 = 0" "spec_seconds 0 = 0"
  by (simp_all add: spec_days_def spec_hours_def spec_minutes_def spec_seconds_def)

lemma show_int_zero: "show_int 0 = ''0''"
  by (simp add: show_int_def show_nat.simps digit_char_def)

text \<open>
  C4, as the claim states it, fails for the birthday countdown: a tick at
  the very millisecond of the deadline does not cancel, and neither does a
  second tick that still reads that millisecond.
\<close>

theorem zero_distance_counterexample:
  "js_sub (countDown sep29) (num 1759190400000) = num 0
   \<and> snd birthday_twice_at_zero = [1759190400000, 1759190400000]
   \<and> lifecycle (fst birthday_twice_at_zero) = [SetInterval 0]
   \<and> 0 \<in> set (intervals (fst birthday_twice_at_zero))"
  using birthday_from_start [of sep29 "[1759190400000, 1759190400000]" "page 1759190399000"]
  by (simp add: birthday_twice_at_zero_def countDown_sep29 expired_simps)

text \<open>
  C4, amended. When now equals the deadline, all four fields are zero in both
  countdowns. A scheduled tick of \<open>update_clock\<close> that reads the deadline
  cancels its interval in that same tick. The tick of the birthday countdown
  that reads the deadline leaves the interval armed; the next tick, when it
  reads a later time, cancels it.
\<close>

theorem zero_distance:
  "(clock w div 1000 * 1000 = dl \<longrightarrow>
      fst (time_remaining (num dl) w) =
        \<lparr>total = num 0, days = num 0, hours = num 0, minutes = num 0, seconds = num 0\<rparr>)
   \<and> (clock w = dl \<longrightarrow>
        text_of (countdown_tick (num dl) x w) ''days'' = ''0''
      \<and> text_of (countdown_tick (num dl) x w) ''hours'' = ''0''
      \<and> text_of (countdown_tick (num dl) x w) ''minutes'' = ''0''
      \<and> text_of (countdown_tick (num dl) x w) ''seconds'' = ''0'')
   \<and> (h \<in> set (intervals w) \<and> n div 1000 * 1000 = dl \<longrightarrow>
        snd (deliver (update_clock (num dl) (Some h)) h (n # ns) w) = [n]
      \<and> h \<notin> set (intervals (fst (deliver (update_clock (num dl) (Some h)) h (n # ns) w))))
   \<and> (h \<in> set (intervals w) \<and> dl < m \<longrightarrow>
        h \<in> set (intervals (countdown_tick (num dl) (Some h) (w\<lparr>clock := dl\<rparr>)))
      \<and> snd (deliver (countdown_tick (num dl) (Some h)) h (dl # m # ms) w) = [dl, m]
      \<and> h \<notin> set (intervals (fst (deliver (countdown_tick (num dl) (Some h)) h (dl # m # ms) w))))"
proof (intro conjI impI)
  assume "clock w div 1000 * 1000 = dl"
  then show "fst (time_remaining (num dl) w) =
        \<lparr>total = num 0, days = num 0, hours = num 0, minutes = num 0, seconds = num 0\<rparr>"
    by (simp add: time_remaining_fields Let_def spec_zero)
next
  assume c: "clock w = dl"
  show "text_of (countdown_tick (num dl) x w) ''days'' = ''0''"
    using c by (simp add: countdown_tick_fields spec_zero show_int_zero)
  show "text_of (countdown_tick (num dl) x w) ''hours'' = ''0''"
    using c by (simp add: countdown_tick_fields spec_zero show_int_zero)
  show "text_of (countdown_tick (num dl) x w) ''minutes'' = ''0''"
    using c by (simp add: countdown_tick_fields spec_zero show_int_zero)
  show "text_of (countdown_tick (num dl) x w) ''seconds'' = ''0''"
    using c by (simp add: countdown_tick_fields spec_zero show_int_zero)
next
  assume a: "h \<in> set (intervals w) \<and> n div 1000 * 1000 = dl"
  then have e: "golf_expired (num dl) n" by (simp add: expired_simps)
  show "snd (deliver (update_clock (num dl) (Some h)) h (n # ns) w) = [n]"
    using a e golf_run [of h w "num dl" "n # ns"] by simp
  show "h \<notin> set (intervals (fst (deliver (update_clock (num dl) (Some h)) h (n # ns) w)))"
    using a e golf_run [of h w "num dl" "n # ns"] by simp
next
  assume a: "h \<in> set (intervals w) \<and> dl < m"
  have e0: "\<not> birthday_expired (num dl) dl" by (simp add: expired_simps)
  have e1: "birthday_expired (num dl) m" using a by (simp add: expired_simps)
  show "h \<in> set (intervals (countdown_tick (num dl) (Some h) (w\<lparr>clock := dl\<rparr>)))"
    using a e0 by (simp add: countdown_tick_intervals)
  show "snd (deliver (countdown_tick (num dl) (Some h)) h (dl # m # ms) w) = [dl, m]"
    using a e0 e1 birthday_run [of h w "num dl" "dl # m # ms"] by simp
  show "h \<notin> set (intervals (fst (deliver (countdown_tick (num dl) (Some h)) h (dl # m # ms) w)))"
    using a e0 e1 birthday_run [of h w "num dl" "dl # m # ms"] by simp
qed

theorem zero_distance_witness:
  "clock (snd (setInterval (page 2000))) div 1000 * 1000 = 2000
   \<and> 0 \<in> set (intervals (snd (setInterval (page 2000)))) \<and> (2000::int) div 1000 * 1000 = 2000
   \<and> (2000::int) < 2004
   \<and> fst (time_remaining (num 2000) (snd (setInterval (page 2000)))) =
        \<lparr>total = num 0, days = num 0, hours = num 0, minutes = num 0, seconds = num 0\<rparr>
   \<and> text_of (countdown_tick (num 2000) (Some 0) (snd (setInterval (page 2000)))) ''seconds'' = ''0''
   \<and> snd (deliver (update_clock (num 2000) (Some 0)) 0 [2000, 3000] (snd (setInterval (page 2000)))) = [2000]
   \<and> snd (deliver (countdown_tick (num 2000) (Some 0)) 0 [2000, 2004, 2008] (snd (setInterval (page 2000))))
       = [2000, 2004]"
  using zero_distance [where w = "snd (setInterval (page 2000))" and dl = 2000 and x = "Some 0"
      and h = 0 and n = 2000 and ns = "[3000]" and m = 2004 and ms = "[2008]"]
  by (simp del: deliver.simps)

lemma never_expired:
  "golf_expired NaN = (\<lambda>n. False)" "birthday_expired NaN = (\<lambda>n. False)"
  by (simp_all add: fun_eq_iff expired_simps)

section \<open>A deadline that does not parse\<close>

text \<open>
  C7, as the claim states it, fails: with a deadline that does not parse,
  \<open>run_clock\<close> reports nothing, arms the interval, and ticks are delivered.
\<close>
theorem unparseable_counterexample:
  "snd golf_unparseable = [1000, 2000]
   \<and> lifecycle (fst golf_unparseable) = [SetInterval 0]
   \<and> 0 \<in> set (intervals (fst golf_unparseable))"
  using golf_from_start [of NaN "[1000, 2000]" "page 0"]
  by (simp add: golf_unparseable_def expired_simps)

lemma update_clock_NaN_text:
  "text_of (update_clock NaN ti w) =
     (text_of w)(''.days'' := ''NaN'', ''.hours'' := ''aN'', ''.minutes'' := ''aN'', ''.seconds'' := ''aN'')"
  by (simp add: update_clock_def time_remaining_def Date_parse_new_Date_def Let_def slice_last2_def)

text \<open>
  C7, amended. Neither countdown checks its deadline. With a deadline that
  does not parse, \<open>run_clock\<close> writes \<^verbatim>\<open>NaN\<close> to the days slot and \<^verbatim>\<open>aN\<close> to the
  other three, arms its interval, and every tick the host offers is
  delivered: the interval is never cancelled. The callback of the birthday
  countdown, given such a deadline, is never cancelled either.
\<close>

theorem unparseable_deadline_runs:
  "snd (run_clock_ticks NaN nows w) = nows
   \<and> lifecycle (fst (run_clock_ticks NaN nows w)) = lifecycle w @ [SetInterval (next_handle w)]
   \<and> next_handle w \<in> set (intervals (fst (run_clock_ticks NaN nows w)))
   \<and> text_of (snd (run_clock NaN w)) ''.days'' = ''NaN''
   \<and> text_of (snd (run_clock NaN w)) ''.hours'' = ''aN''
   \<and> text_of (snd (run_clock NaN w)) ''.minutes'' = ''aN''
   \<and> text_of (snd (run_clock NaN w)) ''.seconds'' = ''aN''
   \<and> snd (deliver (countdown_tick NaN (Some (next_handle w))) (next_handle w) nows
           (snd (setInterval w))) = nows
   \<and> next_handle w \<in> set (intervals (fst (deliver (countdown_tick NaN (Some (next_handle w)))
           (next_handle w) nows (snd (setInterval w)))))"
proof -
  have armed: "next_handle w \<in> set (intervals (snd (setInterval w)))" by simp
  have g: "snd (run_clock_ticks NaN nows w) = nows
   \<and> lifecycle (fst (run_clock_ticks NaN nows w)) = lifecycle w @ [SetInterval (next_handle w)]
   \<and> next_handle w \<in> set (intervals (fst (run_clock_ticks NaN nows w)))"
    using golf_from_start [of NaN nows w]
    by (simp add: never_expired upto_first_never list_ex_iff)
  have t: "text_of (snd (run_clock NaN w)) =
     (text_of w)(''.days'' := ''NaN'', ''.hours'' := ''aN'', ''.minutes'' := ''aN'', ''.seconds'' := ''aN'')"
    by (simp add: run_clock_def update_clock_NaN_text)
  have b: "snd (deliver (countdown_tick NaN (Some (next_handle w))) (next_handle w) nows
           (snd (setInterval w))) = nows
   \<and> next_handle w \<in> set (intervals (fst (deliver (countdown_tick NaN (Some (next_handle w)))
           (next_handle w) nows (snd (setInterval w)))))"
    using birthday_run [OF armed, of NaN nows]
    by (simp add: never_expired upto_first_never list_ex_iff)
  show ?thesis using g b by (simp add: t)
qed

section \<open>What the computation depends on\<close>

text \<open>
  C8, as the claim states it, fails: \<open>time_remaining\<close> has one argument, the
  deadline, and reads now from the wall clock itself. Two calls with the same
  argument, a second apart, return different results.
\<close>

theorem same_argument_counterexample:
  "fst (time_remaining deadline (page 1756655930000)) =
     \<lparr>total = num 10000, days = num 0, hours = num 0, minutes = num 0, seconds = num 10\<rparr>
   \<and> fst (time_remaining deadline (page 1756655931000)) =
     \<lparr>total = num 9000, days = num 0, hours = num 0, minutes = num 0, seconds = num 9\<rparr>
   \<and> fst (time_remaining deadline (page 1756655930000)) \<noteq>
       fst (time_remaining deadline (page 1756655931000))"
proof -
  have s: "(10000::int) smod 86400000 = 10000" "(10000::int) smod 3600000 = 10000"
    "(10000::int) smod 60000 = 10000" "(9000::int) smod 86400000 = 9000"
    "(9000::int) smod 3600000 = 9000" "(9000::int) smod 60000 = 9000"
    by (simp_all add: signed_modulo_int_def)
  show ?thesis
    using time_remaining_fields [of 1756655940000 "page 1756655930000"]
      time_remaining_fields [of 1756655940000 "page 1756655931000"]
    by (simp add: deadline_def Let_def
          spec_days_div spec_hours_div spec_minutes_div spec_seconds_div s)
qed

text \<open>
  C8, amended. \<open>time_remaining\<close> is a function of its deadline and of the
  second the wall clock shows when it is called, and of nothing else: two calls
  with the same deadline in the same second return the same result whatever
  else differs, two calls with the same readable deadline in different seconds
  return different results, and a call leaves the page, the intervals and the
  record of calls as they were.
\<close>

theorem time_remaining_reads_clock:
  "snd (time_remaining e w) = w
   \<and> (clock w div 1000 = clock w' div 1000 \<longrightarrow>
        fst (time_remaining e w) = fst (time_remaining e w'))
   \<and> (clock w div 1000 \<noteq> clock w' div 1000 \<longrightarrow>
        fst (time_remaining (num dl) w) \<noteq> fst (time_remaining (num dl) w'))"
proof (intro conjI impI)
  show "snd (time_remaining e w) = w" by (rule time_remaining_world)
next
  assume "clock w div 1000 = clock w' div 1000"
  then show "fst (time_remaining e w) = fst (time_remaining e w')"
    by (simp add: time_remaining_def Date_parse_new_Date_def Let_def)
next
  assume ne: "clock w div 1000 \<noteq> clock w' div 1000"
  show "fst (time_remaining (num dl) w) \<noteq> fst (time_remaining (num dl) w')"
  proof
    assume "fst (time_remaining (num dl) w) = fst (time_remaining (num dl) w')"
    then have "total (fst (time_remaining (num dl) w)) = total (fst (time_remaining (num dl) w'))"
      by simp
    then have "num (dl - clock w div 1000 * 1000) = num (dl - clock w' div 1000 * 1000)"
      by (simp add: time_remaining_total)
    then have "clock w div 1000 * 1000 = clock w' div 1000 * 1000"
      by simp
    then show False using ne by simp
  qed
qed

theorem time_remaining_reads_clock_witness:
  "clock (page 1756655930250) div 1000 =
     clock (snd (setInterval (set_text ''.days'' ''7'' (page 1756655930900)))) div 1000
   \<and> clock (page 1756655930250) div 1000 \<noteq> clock (page 1756655931000) div 1000
   \<and> snd (time_remaining deadline (page 1756655930250)) = page 1756655930250
   \<and> fst (time_remaining deadline (page 1756655930250)) =
       fst (time_remaining deadline (snd (setInterval (set_text ''.days'' ''7'' (page 1756655930900)))))
   \<and> fst (time_remaining (num 1756655940000) (page 1756655930250)) \<noteq>
       fst (time_remaining (num 1756655940000) (page 1756655931000))"
  using time_remaining_reads_clock [of deadline "page 1756655930250"
      "snd (setInterval (set_text ''.days'' ''7'' (page 1756655930900)))"]
    time_remaining_reads_clock [of deadline "page 1756655930250" "page 1756655931000" 1756655940000]
  by simp

section \<open>Digits, dates and what is written to the page\<close>

lemma digit_cases: "d < 10 \<Longrightarrow> d \<in> {0, 1, 2, 3, 4, 5, 6, 7, 8, 9::nat}"
  by auto

lemma digit_char_code: "d < 10 \<Longrightarrow> (of_char (digit_char d) :: nat) = 48 + d"
  using digit_cases [of d] by (auto simp: digit_char_def)

lemma digit_val_digit_char: "d < 10 \<Longrightarrow> digit_val (digit_char d) = Some d"
  by (simp add: digit_val_def digit_char_code Let_def)

lemma digit_char_0: "digit_char 0 = CHR ''0''"
  by (simp add: digit_char_def)

lemma show_nat_two_digits:
  "n < 100 \<Longrightarrow> show_nat n = (if n < 10 then [digit_char n] else two_digits n)"
proof (cases "n < 10")
  case True
  then show ?thesis by (simp add: show_nat.simps [of n])
next
  case False
  assume "n < 100"
  then have "n div 10 < 10" by simp
  then show ?thesis using False
    by (simp add: show_nat.simps [of n] show_nat.simps [of "n div 10"] two_digits_def)
qed

lemma slice_pad:
  assumes "0 \<le> k" "k < 100"
  shows "slice_last2 (CHR ''0'' # show_int k) = two_digits (nat k)"
proof -
  have n: "nat k < 100" using assms by simp
  show ?thesis using assms show_nat_two_digits [OF n]
    by (simp add: show_int_def slice_last2_def two_digits_def digit_char_0)
qed

lemma padStart_pad:
  assumes "0 \<le> k" "k < 100"
  shows "padStart2 (ToString (num k)) = two_digits (nat k)"
proof -
  have n: "nat k < 100" using assms by simp
  show ?thesis using assms show_nat_two_digits [OF n]
    by (simp add: show_int_def padStart2_def two_digits_def digit_char_0)
qed

lemma update_clock_text:
  "text_of (update_clock (num dl) ti w) =
     (text_of w)
       (''.days'' := show_int (spec_days (dl - clock w div 1000 * 1000)),
        ''.hours'' := slice_last2 (CHR ''0'' # show_int (spec_hours (dl - clock w div 1000 * 1000))),
        ''.minutes'' := slice_last2 (CHR ''0'' # show_int (spec_minutes (dl - clock w div 1000 * 1000))),
        ''.seconds'' := slice_last2 (CHR ''0'' # show_int (spec_seconds (dl - clock w div 1000 * 1000))))"
proof -
  have tr: "time_remaining (num dl) w = (fst (time_remaining (num dl) w), w)"
    using time_remaining_world [of "num dl" w] by (metis prod.collapse)
  show ?thesis
    unfolding update_clock_def
    by (subst tr) (simp add: Let_def time_remaining_fields)
qed


lemma parse_digits_append:
  "parse_digits acc (s @ t) =
     (case parse_digits acc s of None \<Rightarrow> None | Some a \<Rightarrow> parse_digits a t)"
  by (induction s arbitrary: acc) (simp_all split: option.split)

lemma parse_digits_show_nat:
  "parse_digits acc (show_nat n) = Some (acc * 10 ^ length (show_nat n) + n)"
proof (induction n arbitrary: acc rule: show_nat.induct)
  case (1 n)
  show ?case
  proof (cases "n < 10")
    case True
    then show ?thesis by (simp add: show_nat.simps [of n] digit_val_digit_char)
  next
    case False
    have d: "n mod 10 < 10" by simp
    show ?thesis using False "1.IH" [OF False]
      by (simp add: show_nat.simps [of n] parse_digits_append digit_val_digit_char [OF d] algebra_simps)
  qed
qed

lemma show_nat_nonempty: "show_nat n \<noteq> []"
  by (simp add: show_nat.simps [of n])

lemma parse_nat_show_nat: "parse_nat (show_nat n) = Some n"
  by (simp add: parse_nat_def show_nat_nonempty parse_digits_show_nat)

lemma Date_of_mdy_0930:
  assumes "0 \<le> y"
  shows "Date_of_mdy (''09/30/'' @ ToString (num y)) = num (days_from_civil y 9 30 * ms_per_day)"
proof -
  have "parse_nat ''09'' = Some 9" "parse_nat ''30'' = Some 30"
    by (simp_all add: parse_nat_def digit_val_def)
  then show ?thesis using assms
    by (simp add: Date_of_mdy_def show_int_def parse_nat_show_nat)
qed

lemma str_gt_irrefl: "\<not> str_gt s s"
  by (induction s) simp_all

lemma str_gt_today:
  assumes "1 \<le> M" "M \<le> 12" "1 \<le> D" "D \<le> 31"
  shows "str_gt (two_digits M @ ''/'' @ two_digits D @ ''/'' @ Y) (''09/30/'' @ Y)
          \<longleftrightarrow> 9 < M \<or> (M = 9 \<and> 30 < D)"
proof -
  have m: "M div 10 < 10" "M mod 10 < 10" "D div 10 < 10" "D mod 10 < 10" using assms by simp_all
  have "str_gt (two_digits M @ ''/'' @ two_digits D @ ''/'' @ Y) (''09/30/'' @ Y)
      \<longleftrightarrow> (0 < M div 10 \<or> (M div 10 = 0 \<and> (9 < M mod 10 \<or> (M mod 10 = 9 \<and>
            (3 < D div 10 \<or> (D div 10 = 3 \<and> 0 < D mod 10))))))"
    using m by (simp add: two_digits_def digit_char_code str_gt_irrefl)
  also have "\<dots> \<longleftrightarrow> 9 < M \<or> (M = 9 \<and> 30 < D)"
  proof (cases "M < 10")
    case True
    then have M: "M div 10 = 0" "M mod 10 = M" by simp_all
    have D: "D div 10 \<le> 3" using assms(4) by simp
    have D3: "D div 10 = 3 \<longleftrightarrow> 30 \<le> D" using assms(4) by auto
    have D0: "30 \<le> D \<Longrightarrow> D mod 10 = D - 30"
      using assms(4) by (simp add: mod_if le_mod_geq)
    show ?thesis unfolding M using True D D3 D0 by auto
  next
    case False
    then have "0 < M div 10" by (simp add: div_greater_zero_iff)
    then show ?thesis using False by simp
  qed
  finally show ?thesis .
qed


lemma month_cases:
  assumes "1 \<le> (M::int)" "M \<le> 12"
  shows "M = 1 \<or> M = 2 \<or> M = 3 \<or> M = 4 \<or> M = 5 \<or> M = 6 \<or> M = 7 \<or> M = 8 \<or> M = 9
         \<or> M = 10 \<or> M = 11 \<or> M = 12"
  using assms by arith

lemma leap_days_step: "leap_days (y - 1) \<le> leap_days y + 1"
proof -
  have "(y - 1) div 4 \<le> y div 4" "(y - 1) div 400 \<le> y div 400"
    by (simp_all add: zdiv_mono1)
  moreover have "y div 100 \<le> (y - 1) div 100 + 1"
    by (metis add.commute diff_add_cancel div_add_self1 zdiv_mono1 zero_less_numeral
        add_le_cancel_left one_le_numeral zero_neq_numeral)
  ultimately show ?thesis by (simp add: leap_days_def)
qed

lemma days_before_0930:
  assumes "1 \<le> M" "M \<le> 12" "1 \<le> D" "D \<le> 31" "M < 9 \<or> (M = 9 \<and> D < 30)"
  shows "days_from_civil y M D < days_from_civil y 9 30"
  using month_cases [OF assms(1,2)] assms(3-5) leap_days_step [of y]
  by (elim disjE) (simp_all add: days_from_civil_def Let_def)

lemma days_after_0930:
  assumes "1 \<le> M" "M \<le> 12" "1 \<le> D" "D \<le> 31" "9 < M \<or> (M = 9 \<and> 30 < D)"
  shows "days_from_civil y M D < days_from_civil (y + 1) 9 30"
  using month_cases [OF assms(1,2)] assms(3-5) leap_days_step [of "y + 1"]
  by (elim disjE) (simp_all add: days_from_civil_def Let_def)

lemma birthday_eq:
  assumes "valid_date t"
  shows "birthday t = ''09/30/'' @ ToString (num
           (if 8 < getMonth t \<or> (getMonth t = 8 \<and> 30 < getDate t)
            then getFullYear t + 1 else getFullYear t))"
proof -
  have v: "0 \<le> getMonth t" "getMonth t \<le> 11" "1 \<le> getDate t" "getDate t \<le> 31"
    using assms by (simp_all add: valid_date_def)
  have pm: "padStart2 (ToString (num (getMonth t + 1))) = two_digits (nat (getMonth t + 1))"
    using v by (intro padStart_pad) simp_all
  have pd: "padStart2 (ToString (num (getDate t))) = two_digits (nat (getDate t))"
    using v by (intro padStart_pad) simp_all
  have cmp: "str_gt (two_digits (nat (getMonth t + 1)) @ ''/'' @ two_digits (nat (getDate t)) @ ''/''
                @ ToString (num (getFullYear t))) (''09/30/'' @ ToString (num (getFullYear t)))
        \<longleftrightarrow> 8 < getMonth t \<or> (getMonth t = 8 \<and> 30 < getDate t)"
    using v by (subst str_gt_today) auto
  show ?thesis
    unfolding birthday_def Let_def pm pd cmp by simp
qed

lemma countDown_eq:
  assumes "valid_date t"
  shows "countDown t = num (days_from_civil
           (if 8 < getMonth t \<or> (getMonth t = 8 \<and> 30 < getDate t)
            then getFullYear t + 1 else getFullYear t) 9 30 * ms_per_day)"
proof -
  have "0 \<le> getFullYear t" using assms by (simp add: valid_date_def)
  then show ?thesis
    unfolding countDown_def birthday_eq [OF assms]
    by (intro Date_of_mdy_0930) simp
qed

section \<open>The deadline of the birthday countdown\<close>

text \<open>
  C5, as the claim states it, fails on the day itself. Loaded at noon on
  09/30, the script keeps this year's day, since the two date strings are equal
  and the year moves on only when today's string is greater: the deadline is the
  midnight that began the day, twelve hours in the past.
\<close>

theorem deadline_counterexample:
  "valid_date sep30_noon
   \<and> countDown sep30_noon = num 1759190400000
   \<and> getTime sep30_noon = 1759233600000
   \<and> \<not> js_lt (num (getTime sep30_noon)) (countDown sep30_noon)"
  by (simp add: countDown_eq valid_date_def sep30_noon_def getTime_def days_from_civil_def leap_days_def ms_per_day_def)

text \<open>
  C5, amended. For a page loaded in a year of four digits (1000 to 9998), the
  deadline is local midnight of 09/30 of the current year when today is 09/30
  or earlier in the year, and of the next year when today is after 09/30. It
  is strictly after the moment of loading on every day other than 09/30. On
  09/30 itself it is the midnight that began the day, which is not after the
  moment of loading.
\<close>

theorem deadline_year_and_future:
  assumes "valid_date today"
  shows "(getMonth today < 8 \<or> (getMonth today = 8 \<and> getDate today \<le> 30) \<longrightarrow>
            countDown today = num (days_from_civil (getFullYear today) 9 30 * ms_per_day))
       \<and> (8 < getMonth today \<or> (getMonth today = 8 \<and> 30 < getDate today) \<longrightarrow>
            countDown today = num (days_from_civil (getFullYear today + 1) 9 30 * ms_per_day))
       \<and> (\<not> (getMonth today = 8 \<and> getDate today = 30) \<longrightarrow>
            js_lt (num (getTime today)) (countDown today))
       \<and> (getMonth today = 8 \<and> getDate today = 30 \<longrightarrow>
            countDown today = num (getTime today - ms_of_day today)
          \<and> \<not> js_lt (num (getTime today)) (countDown today))"
proof (intro conjI impI)
  assume "getMonth today < 8 \<or> (getMonth today = 8 \<and> getDate today \<le> 30)"
  then have "\<not> (8 < getMonth today \<or> (getMonth today = 8 \<and> 30 < getDate today))" by auto
  then show "countDown today = num (days_from_civil (getFullYear today) 9 30 * ms_per_day)"
    unfolding countDown_eq [OF assms] by (simp only: if_False)
next
  assume after: "8 < getMonth today \<or> (getMonth today = 8 \<and> 30 < getDate today)"
  show "countDown today = num (days_from_civil (getFullYear today + 1) 9 30 * ms_per_day)"
    unfolding countDown_eq [OF assms] if_P [OF after] ..
next
  assume other: "\<not> (getMonth today = 8 \<and> getDate today = 30)"
  have v: "1 \<le> getMonth today + 1" "getMonth today + 1 \<le> 12" "1 \<le> getDate today"
    "getDate today \<le> 31" "0 \<le> ms_of_day today" "ms_of_day today < ms_per_day"
    using assms by (simp_all add: valid_date_def)
  define c where "c = days_from_civil
           (if 8 < getMonth today \<or> (getMonth today = 8 \<and> 30 < getDate today)
            then getFullYear today + 1 else getFullYear today) 9 30"
  have lt: "days_from_civil (getFullYear today) (getMonth today + 1) (getDate today) < c"
  proof (cases "8 < getMonth today \<or> (getMonth today = 8 \<and> 30 < getDate today)")
    case True
    then have "9 < getMonth today + 1 \<or> (getMonth today + 1 = 9 \<and> 30 < getDate today)" by auto
    from days_after_0930 [OF v(1-4) this] show ?thesis unfolding c_def if_P [OF True] .
  next
    case False
    with other have "getMonth today + 1 < 9 \<or> (getMonth today + 1 = 9 \<and> getDate today < 30)"
      by auto
    from days_before_0930 [OF v(1-4) this] show ?thesis unfolding c_def if_not_P [OF False] .
  qed
  then have "days_from_civil (getFullYear today) (getMonth today + 1) (getDate today) + 1 \<le> c"
    by simp
  then have "(days_from_civil (getFullYear today) (getMonth today + 1) (getDate today) + 1) * ms_per_day
      \<le> c * ms_per_day"
    by (simp add: ms_per_day_def)
  then have lt': "getTime today < c * ms_per_day"
    using v(5,6) by (simp add: getTime_def algebra_simps)
  have cd: "countDown today = num (c * ms_per_day)"
    unfolding countDown_eq [OF assms] c_def ..
  show "js_lt (num (getTime today)) (countDown today)"
    unfolding cd js_lt.simps of_int_less_iff by (rule lt')
next
  assume on: "getMonth today = 8 \<and> getDate today = 30"
  then show eq: "countDown today = num (getTime today - ms_of_day today)"
    by (simp add: countDown_eq [OF assms] getTime_def)
  have "0 \<le> ms_of_day today" using assms by (simp add: valid_date_def)
  then show "\<not> js_lt (num (getTime today)) (countDown today)"
    unfolding eq by simp
qed

theorem deadline_year_and_future_witness:
  "valid_date sep29 \<and> valid_date sep30_noon \<and> valid_date oct01
   \<and> countDown sep29 = num 1759190400000
   \<and> js_lt (num (getTime sep29)) (countDown sep29)
   \<and> countDown sep30_noon = num 1759190400000
   \<and> \<not> js_lt (num (getTime sep30_noon)) (countDown sep30_noon)
   \<and> countDown oct01 = num 1790726400000
   \<and> js_lt (num (getTime oct01)) (countDown oct01)"
proof -
  have v: "valid_date sep29" "valid_date sep30_noon" "valid_date oct01"
    by (simp_all add: valid_date_def sep29_def sep30_noon_def oct01_def ms_per_day_def)
  have m: "getMonth sep29 = 8" "getDate sep29 = 29" "getFullYear sep29 = 2025"
    "getMonth sep30_noon = 8" "getDate sep30_noon = 30" "getFullYear sep30_noon = 2025"
    "getMonth oct01 = 9" "getDate oct01 = 1" "getFullYear oct01 = 2025"
    by (simp_all add: sep29_def sep30_noon_def oct01_def)
  have d: "days_from_civil 2025 9 30 * ms_per_day = 1759190400000"
    "days_from_civil (2025 + 1) 9 30 * ms_per_day = 1790726400000"
    by (simp_all add: days_from_civil_def leap_days_def ms_per_day_def)
  have g: "getTime sep29 = 1759190399000" "getTime sep30_noon = 1759233600000"
    "getTime oct01 = 1759276800000"
    by (simp_all add: getTime_def sep29_def sep30_noon_def oct01_def
          days_from_civil_def leap_days_def ms_per_day_def)
  show ?thesis
    using v deadline_year_and_future [OF v(1)] deadline_year_and_future [OF v(2)]
      deadline_year_and_future [OF v(3)]
    unfolding m d by (simp add: g)
qed

section \<open>The strings written on a tick\<close>

text \<open>
  C6, as the claim states it, fails: the birthday countdown writes its
  numbers as they are, 5 hours as \<^verbatim>\<open>5\<close> and not \<^verbatim>\<open>05\<close>. And \<open>update_clock\<close>, on
  a tick after the deadline, cuts the last two characters out of a negative
  number: \<open>-15\<close> seconds are written as \<^verbatim>\<open>15\<close>.
\<close>

theorem padding_counterexample:
  "text_of (countdown_tick (countDown sep29) (Some 0) (page 1759172339000)) ''hours'' = ''5''
   \<and> text_of (countdown_tick (countDown sep29) (Some 0) (page 1759172339000)) ''minutes'' = ''1''
   \<and> text_of (countdown_tick (countDown sep29) (Some 0) (page 1759172339000)) ''seconds'' = ''1''
   \<and> two_digits 5 = ''05''
   \<and> seconds (fst (time_remaining deadline (page 1756655955500))) = num (- 15)
   \<and> text_of (snd (run_clock deadline (page 1756655955500))) ''.seconds'' = ''15''"
proof -
  have s: "(18061000::int) smod 86400000 = 18061000" "(18061000::int) smod 3600000 = 61000"
    "(18061000::int) smod 60000 = 1000" "(- 15000::int) smod 60000 = - 15000"
    by (simp_all add: signed_modulo_int_def)
  have n: "show_nat 5 = ''5''" "show_nat (Suc 0) = ''1''" "show_nat 15 = ''15''"
    by (simp_all add: show_nat.simps digit_char_def)
  show ?thesis
    using countdown_tick_fields [of 1759190400000 "Some 0" "page 1759172339000"]
      update_clock_text [of 1756655940000 None "page 1756655955500"]
      time_remaining_fields [of 1756655940000 "page 1756655955500"]
    by (simp add: countDown_sep29 deadline_def run_clock_def Let_def
          spec_hours_div spec_minutes_div spec_seconds_div s show_int_def n
          two_digits_def digit_char_def slice_last2_def)
qed

text \<open>
  C6, amended. On every tick of \<open>update_clock\<close> at which the deadline has not
  passed, the hours, minutes and seconds slots receive the value padded with
  zeros to two digits and the days slot the plain decimal. The birthday
  countdown writes all four values as plain decimals, on every tick.
\<close>

theorem display_format:
  "(clock w div 1000 * 1000 \<le> dl \<longrightarrow>
      text_of (update_clock (num dl) ti w) ''.days''
        = show_int (spec_days (dl - clock w div 1000 * 1000))
    \<and> text_of (update_clock (num dl) ti w) ''.hours''
        = two_digits (nat (spec_hours (dl - clock w div 1000 * 1000)))
    \<and> text_of (update_clock (num dl) ti w) ''.minutes''
        = two_digits (nat (spec_minutes (dl - clock w div 1000 * 1000)))
    \<and> text_of (update_clock (num dl) ti w) ''.seconds''
        = two_digits (nat (spec_seconds (dl - clock w div 1000 * 1000))))
   \<and> text_of (countdown_tick (num dl) x w) ''days'' = show_int (spec_days (dl - clock w))
   \<and> text_of (countdown_tick (num dl) x w) ''hours'' = show_int (spec_hours (dl - clock w))
   \<and> text_of (countdown_tick (num dl) x w) ''minutes'' = show_int (spec_minutes (dl - clock w))
   \<and> text_of (countdown_tick (num dl) x w) ''seconds'' = show_int (spec_seconds (dl - clock w))"
proof (intro conjI impI)
  assume le: "clock w div 1000 * 1000 \<le> dl"
  define T where "T = dl - clock w div 1000 * 1000"
  have T: "0 \<le> T" using le by (simp add: T_def)
  have h: "slice_last2 (CHR ''0'' # show_int (spec_hours T)) = two_digits (nat (spec_hours T))"
    using fields_nonneg(2) [OF T] fields_bounds(1) [OF T] by (intro slice_pad) simp_all
  have m: "slice_last2 (CHR ''0'' # show_int (spec_minutes T)) = two_digits (nat (spec_minutes T))"
    using fields_nonneg(3) [OF T] fields_bounds(2) [OF T] by (intro slice_pad) simp_all
  have s: "slice_last2 (CHR ''0'' # show_int (spec_seconds T)) = two_digits (nat (spec_seconds T))"
    using fields_nonneg(4) [OF T] fields_bounds(3) [OF T] by (intro slice_pad) simp_all
  show "text_of (update_clock (num dl) ti w) ''.days''
        = show_int (spec_days (dl - clock w div 1000 * 1000))"
    by (simp add: update_clock_text)
  show "text_of (update_clock (num dl) ti w) ''.hours''
        = two_digits (nat (spec_hours (dl - clock w div 1000 * 1000)))"
    using h by (simp add: update_clock_text T_def)
  show "text_of (update_clock (num dl) ti w) ''.minutes''
        = two_digits (nat (spec_minutes (dl - clock w div 1000 * 1000)))"
    using m by (simp add: update_clock_text T_def)
  show "text_of (update_clock (num dl) ti w) ''.seconds''
        = two_digits (nat (spec_seconds (dl - clock w div 1000 * 1000)))"
    using s by (simp add: update_clock_text T_def)
qed (simp_all add: countdown_tick_fields)

theorem display_format_witness:
  "clock (page 1759172339000) div 1000 * 1000 \<le> 1759190400000
   \<and> text_of (update_clock (num 1759190400000) None (page 1759172339000)) ''.days'' = ''0''
   \<and> text_of (update_clock (num 1759190400000) None (page 1759172339000)) ''.hours'' = ''05''
   \<and> text_of (update_clock (num 1759190400000) None (page 1759172339000)) ''.minutes'' = ''01''
   \<and> text_of (update_clock (num 1759190400000) None (page 1759172339000)) ''.seconds'' = ''01''"
proof -
  have s: "(18061000::int) smod 86400000 = 18061000" "(18061000::int) smod 3600000 = 61000"
    "(18061000::int) smod 60000 = 1000"
    by (simp_all add: signed_modulo_int_def)
  show ?thesis
    using display_format [of "page 1759172339000" 1759190400000 None "Some 0"]
    by (simp add: spec_days_div spec_hours_div spec_minutes_div spec_seconds_div s show_int_def
          show_nat.simps two_digits_def digit_char_def)
qed

end
